theory Spec2Isabelle
  imports
    Complex_Main
    "HOL-Library.List_Lexorder"
    "HOL-Library.Char_ord"
    "HOL-Library.Product_Lexorder"
    "HOL-Library.Multiset"
begin

section \<open>Python values used by \<open>server.py\<close>\<close>

text \<open>
  \<open>bytes\<close> are lists of 8-bit characters.  A Python \<open>str\<close> that comes from the client
  (the upload's file name) is a list of Unicode code points, because the service later
  encodes it with a codec that rejects code points above 255.  Texts that the program or
  its libraries produce (format labels, mode names, messages) are plain strings.
\<close>

type_synonym bytes = "char list"
type_synonym unicode = "nat list"

definition ascii :: "string \<Rightarrow> unicode" where
  "ascii s = map of_char s"

text \<open>\<open>str(n)\<close> for a Python int: the decimal digits, most significant first.\<close>

definition digit_char :: "nat \<Rightarrow> char" where
  "digit_char d = char_of (48 + d)"

fun str_nat :: "nat \<Rightarrow> string" where
  "str_nat n = (if n < 10 then [digit_char n] else str_nat (n div 10) @ [digit_char (n mod 10)])"

declare str_nat.simps [simp del]

definition str_int :: "int \<Rightarrow> string" where
  "str_int i = (if i < 0 then CHR ''-'' # str_nat (nat (- i)) else str_nat (nat i))"

text \<open>\<open>'%0wd' % n\<close> for a non-negative \<open>n\<close>: at least \<open>w\<close> characters, padded with zeros.\<close>

definition zfill :: "nat \<Rightarrow> string \<Rightarrow> string" where
  "zfill w s = replicate (w - length s) CHR ''0'' @ s"

definition pad :: "nat \<Rightarrow> nat \<Rightarrow> string" where
  "pad w n = zfill w (str_nat n)"

text \<open>
  Exceptions.  The kinds the handler can meet are named; any other exception raised
  inside a library call is \<open>LibraryError\<close> with a tag chosen by the library.  The text
  \<open>str(e)\<close> belongs to the library that raised \<open>e\<close> and is a parameter of the model.
\<close>

datatype exn =
    ZeroDivisionError
  | TypeError
  | ValueError
  | ValidationError
  | UnicodeEncodeError
  | LibraryError string

text \<open>
  The value of \<open>compression_ratio\<close> on line 90 is a float on one branch and the int
  \<open>0\<close> on the other.  Binary floating point is not interpreted: \<open>'f\<close> is the type of
  floats and its operations are parameters.
\<close>

datatype 'f number = PyInt int | PyFloat 'f

section \<open>Timestamps\<close>

text \<open>
  \<open>datetime.now(timezone.utc)\<close> is an aware datetime in UTC; only the seven calendar and
  clock fields vary.
\<close>

record datetime =
  year :: nat
  month :: nat
  day :: nat
  hour :: nat
  minute :: nat
  second :: nat
  microsecond :: nat

text \<open>
  The datetimes the clock can return: a date of the proleptic Gregorian calendar in the
  years 1 to 9999 and a time of day.
\<close>

definition leap_year :: "nat \<Rightarrow> bool" where
  "leap_year y \<longleftrightarrow> y mod 4 = 0 \<and> (y mod 100 \<noteq> 0 \<or> y mod 400 = 0)"

definition days_in_month :: "nat \<Rightarrow> nat \<Rightarrow> nat" where
  "days_in_month y m =
     (if m = 2 then (if leap_year y then 29 else 28)
      else if m = 4 \<or> m = 6 \<or> m = 9 \<or> m = 11 then 30 else 31)"

definition valid_datetime :: "datetime \<Rightarrow> bool" where
  "valid_datetime t \<longleftrightarrow>
     1 \<le> year t \<and> year t \<le> 9999 \<and> 1 \<le> month t \<and> month t \<le> 12 \<and>
     1 \<le> day t \<and> day t \<le> days_in_month (year t) (month t) \<and>
     hour t < 24 \<and> minute t < 60 \<and> second t < 60 \<and> microsecond t < 1000000"

text \<open>Chronological order of two UTC datetimes: field by field, most significant first.\<close>

definition dt_key :: "datetime \<Rightarrow> nat \<times> nat \<times> nat \<times> nat \<times> nat \<times> nat \<times> nat" where
  "dt_key t = (year t, month t, day t, hour t, minute t, second t, microsecond t)"

definition earlier :: "datetime \<Rightarrow> datetime \<Rightarrow> bool" where
  "earlier s t \<longleftrightarrow> dt_key s < dt_key t"

text \<open>
  \<open>datetime.isoformat()\<close> of an aware UTC datetime:
  \<open>YYYY-MM-DDTHH:MM:SS[.ffffff]+00:00\<close>; the fraction is left out when the microsecond
  field is zero.
\<close>

definition isoformat :: "datetime \<Rightarrow> string" where
  "isoformat t =
     pad 4 (year t) @ ''-'' @ pad 2 (month t) @ ''-'' @ pad 2 (day t) @ ''T'' @
     pad 2 (hour t) @ '':'' @ pad 2 (minute t) @ '':'' @ pad 2 (second t) @
     (if microsecond t \<noteq> 0 then ''.'' @ pad 6 (microsecond t) else '''') @ ''+00:00''"

section \<open>Images as the imaging library presents them\<close>

text \<open>
  The pixel algorithms of the imaging library are not part of the repository.  An image
  is the tree of library calls that produced it, and \<open>im_mode\<close>, \<open>im_size\<close> and
  \<open>im_format\<close> give the attributes the library documents for the result of each call:
  \<open>Image.new\<close> has the mode and size it was asked for, \<open>convert\<close> changes the mode and
  keeps the size, \<open>paste\<close> modifies the destination in place, a band taken out of a
  multi-band image is a grey-scale image, and only an opened file has a format.
\<close>

type_synonym mode = string
type_synonym size = "nat \<times> nat"
type_synonym color = "nat \<times> nat \<times> nat"

datatype image =
    Opened bytes mode size "string option"
  | New mode size color
  | Convert image mode
  | Paste image image "image option"
  | Band image string

definition getbands :: "mode \<Rightarrow> string list" where
  "getbands m =
     (if m = ''RGB'' then [''R'', ''G'', ''B'']
      else if m = ''RGBA'' then [''R'', ''G'', ''B'', ''A'']
      else if m = ''LA'' then [''L'', ''A'']
      else if m = ''PA'' then [''P'', ''A'']
      else if m = ''RGBa'' then [''R'', ''G'', ''B'', ''a'']
      else if m = ''La'' then [''L'', ''a'']
      else if m = ''RGBX'' then [''R'', ''G'', ''B'', ''X'']
      else if m = ''CMYK'' then [''C'', ''M'', ''Y'', ''K'']
      else if m = ''YCbCr'' then [''Y'', ''Cb'', ''Cr'']
      else if m = ''LAB'' then [''L'', ''A'', ''B'']
      else if m = ''HSV'' then [''H'', ''S'', ''V'']
      else [m])"

fun im_mode :: "image \<Rightarrow> mode" where
  "im_mode (Opened _ m _ _) = m"
| "im_mode (New m _ _) = m"
| "im_mode (Convert _ m) = m"
| "im_mode (Paste bg _ _) = im_mode bg"
| "im_mode (Band im _) = (if length (getbands (im_mode im)) = 1 then im_mode im else ''L'')"

fun im_size :: "image \<Rightarrow> size" where
  "im_size (Opened _ _ sz _) = sz"
| "im_size (New _ sz _) = sz"
| "im_size (Convert im _) = im_size im"
| "im_size (Paste bg _ _) = im_size bg"
| "im_size (Band im _) = im_size im"

fun im_format :: "image \<Rightarrow> string option" where
  "im_format (Opened _ _ _ f) = f"
| "im_format _ = None"

text \<open>\<open>image.split()\<close>: one image per band, in band order.\<close>

definition split :: "image \<Rightarrow> image list" where
  "split im = map (Band im) (getbands (im_mode im))"

text \<open>
  The spec's words for the modes of section 4.1: a mode "carries an alpha channel" when
  its last band is an alpha band, and is "palette-indexed" when its first band is a
  palette index.
\<close>

definition carries_alpha :: "mode \<Rightarrow> bool" where
  "carries_alpha m \<longleftrightarrow> m \<in> set [''RGBA'', ''LA'', ''PA'', ''RGBa'', ''La'']"

definition palette_indexed :: "mode \<Rightarrow> bool" where
  "palette_indexed m \<longleftrightarrow> m \<in> set [''P'', ''PA'']"

text \<open>
  An image "composited onto an opaque white canvas of the same dimensions": the result
  of pasting, through a mask, onto a new white RGB image of the size of the input.
\<close>

definition white :: "size \<Rightarrow> image" where
  "white sz = New ''RGB'' sz (255, 255, 255)"

fun composited_on_white :: "image \<Rightarrow> image \<Rightarrow> bool" where
  "composited_on_white img (Paste (New m sz c) src (Some msk)) \<longleftrightarrow>
     m = ''RGB'' \<and> sz = im_size img \<and> c = (255, 255, 255)"
| "composited_on_white img res \<longleftrightarrow> False"

section \<open>The records of \<open>server.py\<close>\<close>

text \<open>
  \<open>CompressionStats\<close> (lines 43 to 52).  The model object holds a datetime; the stored
  document holds its ISO text (line 102).  Both are the same record at two timestamp
  types.
\<close>

record ('f, 't) CompressionStats =
  stats_id :: string
  original_filename :: unicode
  original_size :: int
  compressed_size :: int
  original_format :: string
  compression_ratio :: 'f
  timestamp :: 't

type_synonym 'f stats = "('f, datetime) CompressionStats"
type_synonym 'f document = "('f, string) CompressionStats"

text \<open>\<open>UploadFile\<close>: the client's file name, if any, and what \<open>await file.read()\<close> gives.\<close>

record upload =
  filename :: "unicode option"
  read :: "exn + bytes"

datatype HTTPException = HTTPException (status_code: nat) (detail: string)

text \<open>
  \<open>StreamingResponse\<close>: the status, the media type, the header values after encoding,
  and the bytes the body iterator yields.
\<close>

record response =
  status :: nat
  media_type :: string
  raw_headers :: "(string \<times> bytes) list"
  body :: bytes

section \<open>The collaborators\<close>

text \<open>
  Everything the handlers call outside the repository is a field of the environment:
  the imaging library (\<open>image_open\<close> identifies a file or raises, \<open>pil_raises\<close> says
  whether a later library call raises, \<open>image_save\<close> encodes or raises), float
  arithmetic, the validation error of the data-class library, the identifier and clock
  of the default factories, the driver of the document store, \<open>Path(...).stem\<close>,
  \<open>datetime.fromisoformat\<close>, and the text \<open>str(e)\<close> of an exception.
\<close>

record 'f env =
  image_open :: "bytes \<Rightarrow> exn + mode \<times> size \<times> string option"
  pil_raises :: "image \<Rightarrow> exn option"
  image_save :: "image \<Rightarrow> string \<Rightarrow> nat \<Rightarrow> nat \<Rightarrow> exn + bytes"
  truediv :: "int \<Rightarrow> int \<Rightarrow> 'f"
  float_of_int :: "int \<Rightarrow> 'f"
  fsub :: "'f \<Rightarrow> 'f \<Rightarrow> 'f"
  fmul :: "'f \<Rightarrow> 'f \<Rightarrow> 'f"
  round_ndigits :: "'f \<Rightarrow> int \<Rightarrow> 'f"
  float_str :: "'f \<Rightarrow> string"
  uuid4 :: string
  now_utc :: datetime
  insert_raises :: "'f document \<Rightarrow> exn option"
  find_raises :: "exn option"
  path_stem :: "unicode \<Rightarrow> unicode"
  fromisoformat :: "string \<Rightarrow> exn + datetime"
  str_exn :: "exn \<Rightarrow> string"

text \<open>A library call that either raises or yields the image of that call.\<close>

definition pil :: "'f env \<Rightarrow> image \<Rightarrow> exn + image" where
  "pil env im = (case pil_raises env im of Some e \<Rightarrow> Inl e | None \<Rightarrow> Inr im)"

section \<open>\<open>compress_image\<close>\<close>

text \<open>Line 71: \<open>image.format or "UNKNOWN"\<close>; \<open>None\<close> and the empty string are falsy.\<close>

definition format_or_unknown :: "string option \<Rightarrow> string" where
  "format_or_unknown f = (case f of None \<Rightarrow> ''UNKNOWN'' | Some l \<Rightarrow> if l = [] then ''UNKNOWN'' else l)"

text \<open>
  Lines 74 to 81, the normalizer.  The mask argument of \<open>paste\<close> is evaluated before the
  call; \<open>paste\<close> changes \<open>background\<close> in place, and \<open>background\<close> is the image
  from then on.
\<close>

definition paste_mask :: "'f env \<Rightarrow> image \<Rightarrow> exn + image option" where
  "paste_mask env im =
     (if im_mode im \<in> set [''RGBA'', ''LA'']
      then (case pil env (last (split im)) of Inl e \<Rightarrow> Inl e | Inr b \<Rightarrow> Inr (Some b))
      else Inr None)"

definition normalize_image :: "'f env \<Rightarrow> image \<Rightarrow> exn + image" where
  "normalize_image env img =
     (if im_mode img \<in> set [''RGBA'', ''LA'', ''P''] then
        (case pil env (New ''RGB'' (im_size img) (255, 255, 255)) of
           Inl e \<Rightarrow> Inl e
         | Inr background \<Rightarrow>
             (case (if im_mode img = ''P'' then pil env (Convert img ''RGBA'') else Inr img) of
                Inl e \<Rightarrow> Inl e
              | Inr img1 \<Rightarrow>
                  (case paste_mask env img1 of
                     Inl e \<Rightarrow> Inl e
                   | Inr msk \<Rightarrow> pil env (Paste background img1 msk))))
      else if im_mode img \<noteq> ''RGB'' then pil env (Convert img ''RGB'')
      else Inr img)"

text \<open>
  Line 90.  Python's \<open>/\<close> raises on a zero divisor; \<open>calc_ratio\<close> is the line as
  written, \<open>ratio_formula\<close> is \<open>round((1 - compressed / original) * 100, 2)\<close>.
\<close>

definition py_truediv :: "'f env \<Rightarrow> int \<Rightarrow> int \<Rightarrow> exn + 'f" where
  "py_truediv env a b = (if b = 0 then Inl ZeroDivisionError else Inr (truediv env a b))"

definition ratio_formula :: "'f env \<Rightarrow> int \<Rightarrow> int \<Rightarrow> 'f" where
  "ratio_formula env compressed original =
     round_ndigits env
       (fmul env (fsub env (float_of_int env 1) (truediv env compressed original))
          (float_of_int env 100)) 2"

definition calc_ratio :: "'f env \<Rightarrow> int \<Rightarrow> int \<Rightarrow> exn + 'f number" where
  "calc_ratio env compressed original =
     (if original > 0 then
        (case py_truediv env compressed original of
           Inl e \<Rightarrow> Inl e
         | Inr q \<Rightarrow>
             Inr (PyFloat (round_ndigits env
                    (fmul env (fsub env (float_of_int env 1) q) (float_of_int env 100)) 2)))
      else Inr (PyInt 0))"

definition str_number :: "'f env \<Rightarrow> 'f number \<Rightarrow> string" where
  "str_number env x = (case x of PyInt i \<Rightarrow> str_int i | PyFloat f \<Rightarrow> float_str env f)"

text \<open>
  Lines 93 to 99: the constructor validates its arguments.  \<open>original_filename: str\<close>
  rejects \<open>None\<close>; a float field takes an int by conversion; the two default factories
  supply the identifier and the time.
\<close>

definition as_float :: "'f env \<Rightarrow> 'f number \<Rightarrow> 'f" where
  "as_float env x = (case x of PyInt i \<Rightarrow> float_of_int env i | PyFloat f \<Rightarrow> f)"

definition new_stats ::
  "'f env \<Rightarrow> unicode option \<Rightarrow> int \<Rightarrow> int \<Rightarrow> string \<Rightarrow> 'f number \<Rightarrow> exn + 'f stats" where
  "new_stats env name original compressed fmt ratio =
     (case name of
        None \<Rightarrow> Inl ValidationError
      | Some n \<Rightarrow>
          Inr \<lparr>stats_id = uuid4 env, original_filename = n, original_size = original,
               compressed_size = compressed, original_format = fmt,
               compression_ratio = as_float env ratio, timestamp = now_utc env\<rparr>)"

text \<open>Lines 101 and 102: \<open>model_dump\<close>, then the timestamp is replaced by its ISO text.\<close>

definition stats_doc :: "'f stats \<Rightarrow> 'f document" where
  "stats_doc s =
     \<lparr>stats_id = stats_id s, original_filename = original_filename s,
      original_size = original_size s, compressed_size = compressed_size s,
      original_format = original_format s, compression_ratio = compression_ratio s,
      timestamp = isoformat (timestamp s)\<rparr>"

text \<open>
  Line 103.  The collection is the list of its documents in insertion order; an insert
  that raises leaves it as it was.
\<close>

definition insert_one :: "'f env \<Rightarrow> 'f document list \<Rightarrow> 'f document \<Rightarrow> exn + 'f document list" where
  "insert_one env db doc =
     (case insert_raises env doc of Some e \<Rightarrow> Inl e | None \<Rightarrow> Inr (db @ [doc]))"

text \<open>
  Lines 109 to 119.  The response constructor encodes every header value with the
  \<open>latin-1\<close> codec, in the order of the dict, and that raises on a code point above 255.
  Header names are kept as the source writes them.
\<close>

definition latin1 :: "unicode \<Rightarrow> exn + bytes" where
  "latin1 v = (if list_all (\<lambda>c. c < 256) v then Inr (map char_of v) else Inl UnicodeEncodeError)"

primrec encode_headers :: "(string \<times> unicode) list \<Rightarrow> exn + (string \<times> bytes) list" where
  "encode_headers [] = Inr []"
| "encode_headers (h # hs) =
     (case latin1 (snd h) of
        Inl e \<Rightarrow> Inl e
      | Inr v \<Rightarrow> (case encode_headers hs of Inl e \<Rightarrow> Inl e | Inr r \<Rightarrow> Inr ((fst h, v) # r)))"

definition StreamingResponse :: "bytes \<Rightarrow> string \<Rightarrow> (string \<times> unicode) list \<Rightarrow> exn + response" where
  "StreamingResponse content mt headers =
     (case encode_headers headers of
        Inl e \<Rightarrow> Inl e
      | Inr raw \<Rightarrow> Inr \<lparr>status = 200, media_type = mt, raw_headers = raw, body = content\<rparr>)"

definition response_headers ::
  "'f env \<Rightarrow> unicode \<Rightarrow> int \<Rightarrow> int \<Rightarrow> 'f number \<Rightarrow> string \<Rightarrow> (string \<times> unicode) list" where
  "response_headers env filename_without_ext original compressed ratio fmt =
     [(''Content-Disposition'',
         ascii ''attachment; filename=\"'' @ filename_without_ext @ ascii ''.webp\"''),
      (''X-Original-Size'', ascii (str_int original)),
      (''X-Compressed-Size'', ascii (str_int compressed)),
      (''X-Compression-Ratio'', ascii (str_number env ratio)),
      (''X-Original-Format'', ascii fmt)]"

text \<open>
  The body of the \<open>try\<close> statement, lines 66 to 119: the value is what the body returns
  or the exception that left it, together with the collection afterwards.
\<close>

definition try_body ::
  "'f env \<Rightarrow> upload \<Rightarrow> 'f document list \<Rightarrow> (exn + response) \<times> 'f document list" where
  "try_body env file db =
     (case read file of
        Inl e \<Rightarrow> (Inl e, db)
      | Inr contents \<Rightarrow>
     (case image_open env contents of
        Inl e \<Rightarrow> (Inl e, db)
      | Inr (m, sz, f) \<Rightarrow>
     (case normalize_image env (Opened contents m sz f) of
        Inl e \<Rightarrow> (Inl e, db)
      | Inr img \<Rightarrow>
     (case image_save env img ''WEBP'' 95 6 of
        Inl e \<Rightarrow> (Inl e, db)
      | Inr output \<Rightarrow>
     (case calc_ratio env (int (length output)) (int (length contents)) of
        Inl e \<Rightarrow> (Inl e, db)
      | Inr ratio \<Rightarrow>
     (case new_stats env (filename file) (int (length contents)) (int (length output))
             (format_or_unknown f) ratio of
        Inl e \<Rightarrow> (Inl e, db)
      | Inr stats \<Rightarrow>
     (case insert_one env db (stats_doc stats) of
        Inl e \<Rightarrow> (Inl e, db)
      | Inr db' \<Rightarrow>
     (case filename file of
        None \<Rightarrow> (Inl TypeError, db')
      | Some name \<Rightarrow>
     (case StreamingResponse output ''image/webp''
             (response_headers env (path_stem env name) (int (length contents))
                (int (length output)) ratio (format_or_unknown f)) of
        Inl e \<Rightarrow> (Inl e, db')
      | Inr r \<Rightarrow> (Inr r, db'))))))))))"

text \<open>Lines 121 to 123: every exception becomes a 400 with the exception's text.\<close>

definition compress_image ::
  "'f env \<Rightarrow> upload \<Rightarrow> 'f document list \<Rightarrow> (HTTPException + response) \<times> 'f document list" where
  "compress_image env file db =
     (case try_body env file db of
        (Inl e, db') \<Rightarrow> (Inl (HTTPException 400 (''Error processing image: '' @ str_exn env e)), db')
      | (Inr r, db') \<Rightarrow> (Inr r, db'))"

text \<open>The framework renders an \<open>HTTPException\<close> as its status and a JSON object.\<close>

definition http_exception_handler :: "HTTPException \<Rightarrow> nat \<times> (string \<times> string) list" where
  "http_exception_handler e = (status_code e, [(''detail'', detail e)])"





text \<open>
  The steps of the \<open>try\<close> body up to the insert (reading, decoding, normalizing,
  transcoding, building the record, writing it): \<open>step_raises env upl db e\<close> says that
  the steps before one of them succeed and that one raises \<open>e\<close>.
\<close>

inductive step_raises :: "'f env \<Rightarrow> upload \<Rightarrow> 'f document list \<Rightarrow> exn \<Rightarrow> bool"
  for env :: "'f env" and upl :: upload and db :: "'f document list" where
  reading: "read upl = Inl e \<Longrightarrow> step_raises env upl db e"
| decoding: "read upl = Inr contents \<Longrightarrow> image_open env contents = Inl e \<Longrightarrow> step_raises env upl db e"
| normalizing:
    "read upl = Inr contents \<Longrightarrow> image_open env contents = Inr (m, sz, f) \<Longrightarrow>
     normalize_image env (Opened contents m sz f) = Inl e \<Longrightarrow> step_raises env upl db e"
| transcoding:
    "read upl = Inr contents \<Longrightarrow> image_open env contents = Inr (m, sz, f) \<Longrightarrow>
     normalize_image env (Opened contents m sz f) = Inr img \<Longrightarrow>
     image_save env img ''WEBP'' 95 6 = Inl e \<Longrightarrow> step_raises env upl db e"
| stats_construction:
    "read upl = Inr contents \<Longrightarrow> image_open env contents = Inr (m, sz, f) \<Longrightarrow>
     normalize_image env (Opened contents m sz f) = Inr img \<Longrightarrow>
     image_save env img ''WEBP'' 95 6 = Inr output \<Longrightarrow>
     calc_ratio env (int (length output)) (int (length contents)) = Inr ratio \<Longrightarrow>
     new_stats env (filename upl) (int (length contents)) (int (length output))
       (format_or_unknown f) ratio = Inl e \<Longrightarrow> step_raises env upl db e"
| stats_insert:
    "read upl = Inr contents \<Longrightarrow> image_open env contents = Inr (m, sz, f) \<Longrightarrow>
     normalize_image env (Opened contents m sz f) = Inr img \<Longrightarrow>
     image_save env img ''WEBP'' 95 6 = Inr output \<Longrightarrow>
     calc_ratio env (int (length output)) (int (length contents)) = Inr ratio \<Longrightarrow>
     new_stats env (filename upl) (int (length contents)) (int (length output))
       (format_or_unknown f) ratio = Inr stats \<Longrightarrow>
     insert_one env db (stats_doc stats) = Inl e \<Longrightarrow> step_raises env upl db e"

section \<open>\<open>get_compression_stats\<close>\<close>

text \<open>
  Line 128: all documents, sorted on the timestamp text in descending order, at most
  100 of them.  The store compares strings character by character.  It does not fix the
  order of documents with equal timestamps; the model takes the reverse of the stable
  ascending sort.  A query that raises is \<open>find_raises\<close>.
\<close>

definition find_sorted :: "'f document list \<Rightarrow> 'f document list" where
  "find_sorted db = rev (sort_key timestamp db)"

definition to_list :: "nat \<Rightarrow> 'a list \<Rightarrow> 'a list" where
  "to_list n xs = take n xs"

text \<open>
  Lines 130 to 132: every stored timestamp is a string (line 102), so each one is
  parsed; the first failure raises.
\<close>

definition load_stat :: "'f env \<Rightarrow> 'f document \<Rightarrow> exn + 'f stats" where
  "load_stat env d =
     (case fromisoformat env (timestamp d) of
        Inl e \<Rightarrow> Inl e
      | Inr t \<Rightarrow>
          Inr \<lparr>stats_id = stats_id d, original_filename = original_filename d,
               original_size = original_size d, compressed_size = compressed_size d,
               original_format = original_format d, compression_ratio = compression_ratio d,
               timestamp = t\<rparr>)"

primrec load_all :: "'f env \<Rightarrow> 'f document list \<Rightarrow> exn + 'f stats list" where
  "load_all env [] = Inr []"
| "load_all env (d # ds) =
     (case load_stat env d of
        Inl e \<Rightarrow> Inl e
      | Inr s \<Rightarrow> (case load_all env ds of Inl e \<Rightarrow> Inl e | Inr ss \<Rightarrow> Inr (s # ss)))"

definition get_compression_stats :: "'f env \<Rightarrow> 'f document list \<Rightarrow> exn + 'f stats list" where
  "get_compression_stats env db =
     (case find_raises env of
        Some e \<Rightarrow> Inl e
      | None \<Rightarrow> load_all env (to_list 100 (find_sorted db)))"

text \<open>
  What the claims about the list suppose of the collaborators and of the collection:
  \<open>fromisoformat\<close> reads back what \<open>isoformat\<close> wrote, and a document was written
  by line 103, so that its timestamp is the ISO text of a datetime.
\<close>

definition inverts_isoformat :: "'f env \<Rightarrow> bool" where
  "inverts_isoformat env \<longleftrightarrow> (\<forall>t. valid_datetime t \<longrightarrow> fromisoformat env (isoformat t) = Inr t)"

definition written_by_service :: "'f document \<Rightarrow> bool" where
  "written_by_service d \<longleftrightarrow> (\<exists>t. valid_datetime t \<and> timestamp d = isoformat t)"

definition written_before :: "datetime \<Rightarrow> 'f document \<Rightarrow> bool" where
  "written_before now d \<longleftrightarrow> (\<exists>t. valid_datetime t \<and> timestamp d = isoformat t \<and> earlier t now)"

section \<open>A concrete environment\<close>

text \<open>
  One instance of the collaborators, on which the handlers can be evaluated.  Floats are
  exact rationals, rounded half to even; \<open>demo_open\<close> tells a file by its first bytes
  and gives every image the size 2 by 3; the encoder always writes the same eight
  bytes; \<open>demo_stem\<close> is the rule of \<open>PurePosixPath.stem\<close>; \<open>parse_iso\<close> reads the two
  layouts that \<open>isoformat\<close> writes; no later library call, insert or query raises.
\<close>

definition round_half_even :: "rat \<Rightarrow> int" where
  "round_half_even x =
     (let f = \<lfloor>x\<rfloor>; r = x - of_int f
      in if r < 1 / 2 then f else if 1 / 2 < r then f + 1 else if even f then f else f + 1)"

definition demo_round :: "rat \<Rightarrow> int \<Rightarrow> rat" where
  "demo_round x n = of_int (round_half_even (x * 10 ^ nat n)) / 10 ^ nat n"

definition demo_float_str :: "rat \<Rightarrow> string" where
  "demo_float_str x =
     (let h = nat \<lfloor>\<bar>x\<bar> * 100\<rfloor>
      in (if x < 0 then ''-'' else []) @ str_nat (h div 100) @ ''.'' @
         (if h mod 10 = 0 then str_nat (h mod 100 div 10) else pad 2 (h mod 100)))"

definition demo_open :: "bytes \<Rightarrow> exn + mode \<times> size \<times> string option" where
  "demo_open bs =
     (if take 4 bs = ''GIF8'' then Inr (''P'', (2, 3), Some ''GIF'')
      else if take 4 bs = ''RIFF'' then Inr (''RGBA'', (2, 3), Some ''WEBP'')
      else if take 3 bs = ''II*'' then Inr (''PA'', (2, 3), Some ''TIFF'')
      else if take 2 bs = ''BM'' then Inr (''RGB'', (2, 3), Some ''BMP'')
      else if take 2 bs = ''P5'' then Inr (''L'', (2, 3), Some ''PPM'')
      else if take 2 bs = ''LA'' then Inr (''LA'', (2, 3), None)
      else Inl (LibraryError ''UnidentifiedImageError''))"

definition demo_save :: "image \<Rightarrow> string \<Rightarrow> nat \<Rightarrow> nat \<Rightarrow> exn + bytes" where
  "demo_save im fmt quality method = Inr ''RIFFWEBP''"

primrec split_on :: "nat \<Rightarrow> unicode \<Rightarrow> unicode list" where
  "split_on c [] = [[]]"
| "split_on c (x # xs) =
     (if x = c then [] # split_on c xs
      else (case split_on c xs of [] \<Rightarrow> [[x]] | y # ys \<Rightarrow> (x # y) # ys))"

definition demo_stem :: "unicode \<Rightarrow> unicode" where
  "demo_stem p =
     (let parts = filter (\<lambda>c. c \<noteq> [] \<and> c \<noteq> [46]) (split_on 47 p);
          name = (if parts = [] then [] else last parts);
          k = length (dropWhile (\<lambda>c. c \<noteq> 46) (rev name))
      in if 2 \<le> k \<and> k < length name then take (k - 1) name else name)"

definition undigits :: "string \<Rightarrow> nat" where
  "undigits s = foldl (\<lambda>a c. 10 * a + (of_char c - 48)) 0 s"

definition parse_iso :: "string \<Rightarrow> exn + datetime" where
  "parse_iso s =
     (let t = \<lparr>year = undigits (take 4 s), month = undigits (take 2 (drop 5 s)),
               day = undigits (take 2 (drop 8 s)), hour = undigits (take 2 (drop 11 s)),
               minute = undigits (take 2 (drop 14 s)), second = undigits (take 2 (drop 17 s)),
               microsecond = (if length s = 32 then undigits (take 6 (drop 20 s)) else 0)\<rparr>
      in if valid_datetime t \<and> isoformat t = s then Inr t else Inl ValueError)"

definition demo_str_exn :: "exn \<Rightarrow> string" where
  "demo_str_exn e =
     (case e of
        ZeroDivisionError \<Rightarrow> ''division by zero''
      | TypeError \<Rightarrow> ''expected str, bytes or os.PathLike object, not NoneType''
      | ValueError \<Rightarrow> ''Invalid isoformat string''
      | ValidationError \<Rightarrow> ''1 validation error for CompressionStats''
      | UnicodeEncodeError \<Rightarrow> ''latin-1 codec cannot encode character''
      | LibraryError tag \<Rightarrow> tag)"

definition demo_now :: datetime where
  "demo_now = \<lparr>year = 2024, month = 5, day = 17, hour = 10, minute = 30, second = 0,
                microsecond = 250000\<rparr>"

definition demo_env :: "rat env" where
  "demo_env =
     \<lparr>image_open = demo_open, pil_raises = (\<lambda>im. None), image_save = demo_save,
      truediv = (\<lambda>a b. of_int a / of_int b), float_of_int = of_int,
      fsub = (\<lambda>x y. x - y), fmul = (\<lambda>x y. x * y), round_ndigits = demo_round,
      float_str = demo_float_str, uuid4 = ''0b8f6c1e-5a43-4f0e-9d2a-7c1e3b9a4d10'',
      now_utc = demo_now, insert_raises = (\<lambda>d. None), find_raises = None,
      path_stem = demo_stem, fromisoformat = parse_iso, str_exn = demo_str_exn\<rparr>"


section \<open>Example requests\<close>

definition gif_upload :: upload where
  "gif_upload = \<lparr>filename = Some (ascii ''dir/photo.v2.gif''), read = Inr ''GIF89a-data-data''\<rparr>"

definition text_upload :: upload where
  "text_upload = \<lparr>filename = Some (ascii ''notes.txt''), read = Inr ''hello''\<rparr>"

definition empty_upload :: upload where
  "empty_upload = \<lparr>filename = Some (ascii ''empty.png''), read = Inr []\<rparr>"

definition unicode_upload :: upload where
  "unicode_upload = \<lparr>filename = Some [29031, 29255, 46, 103, 105, 102], read = Inr ''GIF89a-data-data''\<rparr>"


definition gif_stats :: "rat stats" where
  "gif_stats =
     \<lparr>stats_id = ''0b8f6c1e-5a43-4f0e-9d2a-7c1e3b9a4d10'',
      original_filename = ascii ''dir/photo.v2.gif'', original_size = 16, compressed_size = 8,
      original_format = ''GIF'', compression_ratio = 50, timestamp = demo_now\<rparr>"

definition gif_response :: response where
  "gif_response =
     \<lparr>status = 200, media_type = ''image/webp'',
      raw_headers =
        [(''Content-Disposition'', ''attachment; filename=\"photo.v2.webp\"''),
         (''X-Original-Size'', ''16''), (''X-Compressed-Size'', ''8''),
         (''X-Compression-Ratio'', ''50.0''), (''X-Original-Format'', ''GIF'')],
      body = ''RIFFWEBP''\<rparr>"



definition tiff_pa :: image where
  "tiff_pa = Opened ''II*-palette-alpha'' ''PA'' (2, 3) (Some ''TIFF'')"

definition gif_p :: image where
  "gif_p = Opened ''GIF89a-data-data'' ''P'' (2, 3) (Some ''GIF'')"

definition webp_rgba :: image where
  "webp_rgba = Opened ''RIFF-data'' ''RGBA'' (2, 3) (Some ''WEBP'')"

definition pgm_l :: image where
  "pgm_l = Opened ''P5-data'' ''L'' (2, 3) (Some ''PPM'')"

definition bmp_rgb :: image where
  "bmp_rgb = Opened ''BM-data'' ''RGB'' (2, 3) (Some ''BMP'')"

definition older_stats :: "rat stats" where
  "older_stats =
     \<lparr>stats_id = ''6d1f0c52-93ab-4c77-8a55-0e2f4b7c9a01'',
      original_filename = ascii ''scan.bmp'', original_size = 120000, compressed_size = 30000,
      original_format = ''BMP'', compression_ratio = 75,
      timestamp = \<lparr>year = 2024, month = 5, day = 17, hour = 9, minute = 0, second = 0,
                    microsecond = 0\<rparr>\<rparr>"

definition oldest_stats :: "rat stats" where
  "oldest_stats =
     \<lparr>stats_id = ''c3a9e7d4-1b2f-4e88-b6a0-52d9f1e4c7b3'',
      original_filename = ascii ''logo.png'', original_size = 2000, compressed_size = 2500,
      original_format = ''PNG'', compression_ratio = -25,
      timestamp = \<lparr>year = 2023, month = 12, day = 31, hour = 23, minute = 59, second = 59,
                    microsecond = 999999\<rparr>\<rparr>"

text \<open>
  Fixed-width decimal digits: what \<open>pad w n\<close> is when \<open>n\<close> has at most \<open>w\<close> digits.
\<close>

primrec digits :: "nat \<Rightarrow> nat \<Rightarrow> string" where
  "digits 0 n = []"
| "digits (Suc w) n = digits w (n div 10) @ [digit_char (n mod 10)]"

section \<open>Decimal digits and the order of ISO timestamps\<close>

lemma length_digits [simp]: "length (digits w n) = w"
  by (induction w arbitrary: n) auto

lemma char_of_48: "char_of (48::nat) = CHR ''0''"
  by (simp add: char_of_def bit_0)

lemma digit_char_0: "digit_char 0 = CHR ''0''"
  by (simp add: digit_char_def char_of_48)

lemma digits_zero: "digits w 0 = replicate w CHR ''0''"
  by (induction w) (auto simp: digit_char_0 replicate_append_same)

lemma zfill_snoc: "length s < Suc w \<Longrightarrow> zfill (Suc w) (s @ [c]) = zfill w s @ [c]"
  by (simp add: zfill_def)

lemma str_nat_small: "n < 10 \<Longrightarrow> str_nat n = [digit_char n]"
  by (simp add: str_nat.simps[of n])

lemma str_nat_large: "\<not> n < 10 \<Longrightarrow> str_nat n = str_nat (n div 10) @ [digit_char (n mod 10)]"
  by (simp add: str_nat.simps[of n])

lemma length_str_nat: "n < 10 ^ w \<Longrightarrow> 0 < w \<Longrightarrow> length (str_nat n) \<le> w"
proof (induction w arbitrary: n)
  case 0
  then show ?case by simp
next
  case (Suc w)
  show ?case
  proof (cases "n < 10")
    case True
    then show ?thesis by (simp add: str_nat_small)
  next
    case False
    with Suc.prems have w: "0 < w" by (cases w) auto
    from Suc.prems have "n div 10 < 10 ^ w" by (simp add: less_mult_imp_div_less mult.commute)
    with Suc.IH w have "length (str_nat (n div 10)) \<le> w" by blast
    with False show ?thesis by (simp add: str_nat_large)
  qed
qed

lemma pad_digits: "n < 10 ^ w \<Longrightarrow> 0 < w \<Longrightarrow> pad w n = digits w n"
proof (induction w arbitrary: n)
  case 0
  then show ?case by simp
next
  case (Suc w)
  show ?case
  proof (cases "n < 10")
    case True
    then show ?thesis
      by (simp add: pad_def zfill_def str_nat_small digits_zero)
  next
    case False
    with Suc.prems have w: "0 < w" by (cases w) auto
    from Suc.prems have d: "n div 10 < 10 ^ w" by (simp add: less_mult_imp_div_less mult.commute)
    from length_str_nat[OF d w] have l: "length (str_nat (n div 10)) < Suc w" by simp
    have "pad (Suc w) n = zfill (Suc w) (str_nat (n div 10) @ [digit_char (n mod 10)])"
      using False by (simp add: pad_def str_nat_large)
    also have "\<dots> = zfill w (str_nat (n div 10)) @ [digit_char (n mod 10)]"
      using l by (rule zfill_snoc)
    also have "\<dots> = digits (Suc w) n"
      using Suc.IH[OF d w] by (simp add: pad_def)
    finally show ?thesis .
  qed
qed

lemma of_char_digit: "d < 10 \<Longrightarrow> of_char (digit_char d) = 48 + d"
  by (simp add: digit_char_def)

lemma digit_char_less: "d < 10 \<Longrightarrow> e < 10 \<Longrightarrow> digit_char d < digit_char e \<longleftrightarrow> d < e"
  by (simp add: less_char_def of_char_digit)

lemma digit_char_inj: "d < 10 \<Longrightarrow> e < 10 \<Longrightarrow> digit_char d = digit_char e \<longleftrightarrow> d = e"
  by (metis of_char_digit add_left_cancel)

lemma block_less:
  "length a = length b \<Longrightarrow> a @ x < b @ y \<longleftrightarrow> a < b \<or> (a = b \<and> x < (y :: 'a :: linorder list))"
  by (induction a b rule: list_induct2) auto

lemma digits_inj: "a < 10 ^ w \<Longrightarrow> b < 10 ^ w \<Longrightarrow> digits w a = digits w b \<longleftrightarrow> a = b"
proof (induction w arbitrary: a b)
  case 0
  then show ?case by simp
next
  case (Suc w)
  from Suc.prems have d: "a div 10 < 10 ^ w" "b div 10 < 10 ^ w"
    by (simp_all add: less_mult_imp_div_less mult.commute)
  have "digits (Suc w) a = digits (Suc w) b \<longleftrightarrow> a div 10 = b div 10 \<and> a mod 10 = b mod 10"
    using Suc.IH[OF d] by (simp add: digit_char_inj)
  also have "\<dots> \<longleftrightarrow> a = b"
    by (metis div_mult_mod_eq)
  finally show ?case .
qed

lemma divmod_less: "(a div 10 < b div 10 \<or> (a div 10 = b div 10 \<and> a mod 10 < b mod 10)) \<longleftrightarrow> a < (b::nat)"
proof -
  have a: "a = 10 * (a div 10) + a mod 10" and b: "b = 10 * (b div 10) + b mod 10" by simp_all
  have ma: "a mod 10 < 10" and mb: "b mod 10 < 10" by simp_all
  show ?thesis
  proof (cases "a div 10 < b div 10")
    case True
    then have "10 * (a div 10) + 10 \<le> 10 * (b div 10)" by simp
    with a b ma have "a < b" by linarith
    with True show ?thesis by simp
  next
    case False
    show ?thesis
    proof (cases "a div 10 = b div 10")
      case True
      with a b have "a < b \<longleftrightarrow> a mod 10 < b mod 10" by (metis nat_add_left_cancel_less)
      with True show ?thesis by simp
    next
      case False2: False
      with False have "b div 10 < a div 10" by simp
      then have "10 * (b div 10) + 10 \<le> 10 * (a div 10)" by simp
      with a b mb have "b < a" by linarith
      with False False2 show ?thesis by simp
    qed
  qed
qed

lemma digits_less: "a < 10 ^ w \<Longrightarrow> b < 10 ^ w \<Longrightarrow> digits w a < digits w b \<longleftrightarrow> a < b"
proof (induction w arbitrary: a b)
  case 0
  then show ?case by simp
next
  case (Suc w)
  from Suc.prems have d: "a div 10 < 10 ^ w" "b div 10 < 10 ^ w"
    by (simp_all add: less_mult_imp_div_less mult.commute)
  have "digits (Suc w) a < digits (Suc w) b \<longleftrightarrow>
        a div 10 < b div 10 \<or> (a div 10 = b div 10 \<and> a mod 10 < b mod 10)"
    using Suc.IH[OF d] digits_inj[OF d] by (simp add: block_less digit_char_less)
  also have "\<dots> \<longleftrightarrow> a < b"
    by (rule divmod_less)
  finally show ?case .
qed

lemma length_pad: "n < 10 ^ w \<Longrightarrow> 0 < w \<Longrightarrow> length (pad w n) = w"
  by (simp add: pad_digits)

lemma pad_less: "a < 10 ^ w \<Longrightarrow> b < 10 ^ w \<Longrightarrow> 0 < w \<Longrightarrow> pad w a < pad w b \<longleftrightarrow> a < b"
  by (simp add: pad_digits digits_less)

lemma pad_inj: "a < 10 ^ w \<Longrightarrow> b < 10 ^ w \<Longrightarrow> 0 < w \<Longrightarrow> pad w a = pad w b \<longleftrightarrow> a = b"
  by (simp add: pad_digits digits_inj)

lemma days_in_month_le: "days_in_month y m \<le> 31"
  by (simp add: days_in_month_def)

lemma valid_datetime_bounds:
  assumes "valid_datetime t"
  shows "year t < 10 ^ 4" "month t < 10 ^ 2" "day t < 10 ^ 2" "hour t < 10 ^ 2"
    "minute t < 10 ^ 2" "second t < 10 ^ 2" "microsecond t < 10 ^ 6"
  using assms days_in_month_le[of "year t" "month t"] by (simp_all add: valid_datetime_def)

lemma isoformat_digits:
  assumes "valid_datetime t"
  shows "isoformat t =
     digits 4 (year t) @ CHR ''-'' # digits 2 (month t) @ CHR ''-'' # digits 2 (day t) @ CHR ''T'' #
     digits 2 (hour t) @ CHR '':'' # digits 2 (minute t) @ CHR '':'' # digits 2 (second t) @
     (if microsecond t \<noteq> 0 then CHR ''.'' # digits 6 (microsecond t) else []) @ ''+00:00''"
  using valid_datetime_bounds[OF assms] by (simp add: isoformat_def pad_digits)

lemma frac_less:
  assumes "a < 10 ^ 6" "b < 10 ^ 6"
  shows "(if a \<noteq> 0 then CHR ''.'' # digits 6 a else []) @ ''+00:00''
       < (if b \<noteq> 0 then CHR ''.'' # digits 6 b else []) @ ''+00:00'' \<longleftrightarrow> a < b"
  using assms by (auto simp: block_less digits_less digits_inj)

lemma frac_inj:
  assumes "a < 10 ^ 6" "b < 10 ^ 6"
  shows "(if a \<noteq> 0 then CHR ''.'' # digits 6 a else []) @ ''+00:00''
       = (if b \<noteq> 0 then CHR ''.'' # digits 6 b else []) @ ''+00:00'' \<longleftrightarrow> a = b"
  using assms by (auto simp: digits_inj)

lemma isoformat_less:
  assumes "valid_datetime s" "valid_datetime t"
  shows "isoformat s < isoformat t \<longleftrightarrow> earlier s t"
proof -
  have b:
    "year s < 10 ^ 4" "year t < 10 ^ 4" "month s < 10 ^ 2" "month t < 10 ^ 2"
    "day s < 10 ^ 2" "day t < 10 ^ 2" "hour s < 10 ^ 2" "hour t < 10 ^ 2"
    "minute s < 10 ^ 2" "minute t < 10 ^ 2" "second s < 10 ^ 2" "second t < 10 ^ 2"
    "microsecond s < 10 ^ 6" "microsecond t < 10 ^ 6"
    using valid_datetime_bounds[OF assms(1)] valid_datetime_bounds[OF assms(2)] by simp_all
  show ?thesis
    unfolding isoformat_digits[OF assms(1)] isoformat_digits[OF assms(2)] earlier_def dt_key_def
    using b
    by (simp only: block_less length_digits Cons_less_Cons digits_less digits_inj frac_less frac_inj
        less_prod_simp list.inject simp_thms) auto
qed

lemma isoformat_inj:
  assumes "valid_datetime s" "valid_datetime t"
  shows "isoformat s = isoformat t \<longleftrightarrow> s = (t::datetime)"
proof -
  have b:
    "year s < 10 ^ 4" "year t < 10 ^ 4" "month s < 10 ^ 2" "month t < 10 ^ 2"
    "day s < 10 ^ 2" "day t < 10 ^ 2" "hour s < 10 ^ 2" "hour t < 10 ^ 2"
    "minute s < 10 ^ 2" "minute t < 10 ^ 2" "second s < 10 ^ 2" "second t < 10 ^ 2"
    "microsecond s < 10 ^ 6" "microsecond t < 10 ^ 6"
    using valid_datetime_bounds[OF assms(1)] valid_datetime_bounds[OF assms(2)] by simp_all
  have "isoformat s = isoformat t \<longleftrightarrow> dt_key s = dt_key t"
    unfolding isoformat_digits[OF assms(1)] isoformat_digits[OF assms(2)] dt_key_def
    using b
    by (simp only: append_eq_append_conv length_digits list.inject digits_inj frac_inj
        prod.inject simp_thms) (auto simp: digits_inj)
  then show ?thesis by (auto simp: dt_key_def)
qed

lemma latin1_ascii: "latin1 (ascii s) = Inr s"
  by (simp add: latin1_def ascii_def list_all_iff comp_def)

lemma latin1_disposition:
  "latin1 (ascii a @ u @ ascii b) =
     (if list_all (\<lambda>c. c < 256) u then Inr (a @ map char_of u @ b) else Inl UnicodeEncodeError)"
  by (auto simp: latin1_def ascii_def list_all_iff comp_def)

lemma encode_response_headers:
  "encode_headers (response_headers env u a b ratio fmt) =
     (if list_all (\<lambda>c. c < 256) u
      then Inr [(''Content-Disposition'', ''attachment; filename=\"'' @ map char_of u @ ''.webp\"''),
                (''X-Original-Size'', str_int a), (''X-Compressed-Size'', str_int b),
                (''X-Compression-Ratio'', str_number env ratio), (''X-Original-Format'', fmt)]
      else Inl UnicodeEncodeError)"
  by (simp add: response_headers_def latin1_ascii latin1_disposition)

lemma calc_ratio_eq:
  "calc_ratio env c a =
     Inr (if 0 < a then PyFloat (ratio_formula env c a) else PyInt 0)"
  by (simp add: calc_ratio_def py_truediv_def ratio_formula_def)

lemma try_body_Inr:
  assumes "try_body env file db = (Inr r, db')"
  obtains contents m sz f img name where
    "read file = Inr contents" "image_open env contents = Inr (m, sz, f)"
    "normalize_image env (Opened contents m sz f) = Inr img"
    "image_save env img ''WEBP'' 95 6 = Inr (body r)"
    "filename file = Some name"
    "list_all (\<lambda>c. c < 256) (path_stem env name)"
    "db' = db @ [stats_doc \<lparr>stats_id = uuid4 env, original_filename = name,
        original_size = int (length contents), compressed_size = int (length (body r)),
        original_format = format_or_unknown f,
        compression_ratio = as_float env (if 0 < length contents
            then PyFloat (ratio_formula env (int (length (body r))) (int (length contents)))
            else PyInt 0),
        timestamp = now_utc env\<rparr>]"
    "status r = 200" "media_type r = ''image/webp''"
    "raw_headers r =
       [(''Content-Disposition'', ''attachment; filename=\"'' @ map char_of (path_stem env name) @ ''.webp\"''),
        (''X-Original-Size'', str_int (int (length contents))),
        (''X-Compressed-Size'', str_int (int (length (body r)))),
        (''X-Compression-Ratio'', str_number env (if 0 < length contents
            then PyFloat (ratio_formula env (int (length (body r))) (int (length contents)))
            else PyInt 0)),
        (''X-Original-Format'', format_or_unknown f)]"
  using assms
  by (auto simp: try_body_def calc_ratio_eq new_stats_def insert_one_def StreamingResponse_def
      encode_response_headers split: sum.splits option.splits prod.splits if_splits)

lemma compress_image_Inr: "compress_image env file db = (Inr r, db') \<longleftrightarrow> try_body env file db = (Inr r, db')"
  by (auto simp: compress_image_def split: prod.splits sum.splits)

lemma compress_image_Inl:
  "compress_image env file db = (Inl h, db') \<longleftrightarrow>
     (\<exists>e. try_body env file db = (Inl e, db') \<and> h = HTTPException 400 (''Error processing image: '' @ str_exn env e))"
  by (auto simp: compress_image_def split: prod.splits sum.splits)

lemma try_body_step_raises:
  assumes "step_raises env file db e"
  shows "try_body env file db = (Inl e, db)"
  using assms by cases (simp_all add: try_body_def)

lemma try_body_Inl:
  assumes "try_body env file db = (Inl e, db')"
  shows "(step_raises env file db e \<and> db' = db) \<or>
         (e = UnicodeEncodeError \<and> (\<exists>d. db' = db @ [d]))"
  using assms
  by (auto simp: try_body_def calc_ratio_eq StreamingResponse_def encode_response_headers
      insert_one_def new_stats_def
      split: sum.splits option.splits prod.splits if_splits
      intro: step_raises.intros)

lemma digit_char_numerals:
  "digit_char 0 = CHR ''0''" "digit_char 1 = CHR ''1''" "digit_char 2 = CHR ''2''"
  "digit_char 3 = CHR ''3''" "digit_char 4 = CHR ''4''" "digit_char 5 = CHR ''5''"
  "digit_char 6 = CHR ''6''" "digit_char 7 = CHR ''7''" "digit_char 8 = CHR ''8''"
  "digit_char 9 = CHR ''9''"
  by (simp_all add: digit_char_def char_of_def bit_0)

lemma str_nat_numeral: "str_nat (numeral k) =
  (if (numeral k :: nat) < 10 then [digit_char (numeral k)]
   else str_nat (numeral k div 10) @ [digit_char (numeral k mod 10)])"
  by (rule str_nat.simps)

lemma str_nat_0: "str_nat 0 = ''0''" and str_nat_1: "str_nat 1 = ''1''"
  and str_nat_Suc_0: "str_nat (Suc 0) = ''1''"
  using digit_char_numerals(2)
  by (simp_all add: str_nat.simps[of 0] str_nat.simps[of 1] str_nat.simps[of "Suc 0"] digit_char_numerals)

lemma map_char_of_ascii: "map char_of (ascii s) = s"
  by (simp add: ascii_def comp_def)

lemma list_all_ascii: "list_all (\<lambda>c. c < 256) (ascii s)"
  by (simp add: ascii_def list_all_iff)

lemmas eval_simps =
  str_nat_numeral str_nat_0 str_nat_1 str_nat_Suc_0 digit_char_numerals map_char_of_ascii list_all_ascii str_int_def pad_def zfill_def isoformat_def

lemma isoformat_demo_now: "isoformat demo_now = ''2024-05-17T10:30:00.250000+00:00''"
  by (simp add: demo_now_def eval_simps)

lemma demo_stem_gif: "demo_stem (ascii ''dir/photo.v2.gif'') = ascii ''photo.v2''"
  by (simp add: demo_stem_def ascii_def Let_def)

lemma compress_gif:
  "compress_image demo_env gif_upload db = (Inr gif_response, db @ [stats_doc gif_stats])"
  by (simp add: compress_image_def try_body_def gif_upload_def demo_env_def demo_open_def
      normalize_image_def pil_def paste_mask_def split_def getbands_def demo_save_def
      calc_ratio_eq new_stats_def as_float_def ratio_formula_def demo_round_def round_half_even_def
      insert_one_def StreamingResponse_def encode_response_headers demo_stem_gif
      format_or_unknown_def str_number_def demo_float_str_def gif_response_def gif_stats_def
      eval_simps Let_def)




section \<open>The normalizer, the parser and the sorted query\<close>

lemma last_split_alpha:
  "im_mode img \<in> set [''RGBA'', ''LA''] \<Longrightarrow> last (split img) = Band img ''A''"
  by (auto simp: split_def getbands_def)

lemma normalize_image_total:
  assumes "\<And>i. pil_raises env i = None"
  shows "\<exists>res. normalize_image env img = Inr res"
  using assms by (simp add: normalize_image_def pil_def paste_mask_def)

lemma undigits_snoc: "undigits (s @ [c]) = 10 * undigits s + (of_char c - 48)"
  by (simp add: undigits_def)

lemma undigits_digits: "n < 10 ^ w \<Longrightarrow> undigits (digits w n) = n"
proof (induction w arbitrary: n)
  case 0
  then show ?case by (simp add: undigits_def)
next
  case (Suc w)
  from Suc.prems have d: "n div 10 < 10 ^ w"
    by (simp add: less_mult_imp_div_less mult.commute)
  show ?case
    using Suc.IH[OF d] by (simp add: undigits_snoc of_char_digit)
qed

lemma parse_iso_isoformat:
  assumes "valid_datetime t"
  shows "parse_iso (isoformat t) = Inr t"
proof -
  have b:
    "year t < 10 ^ 4" "month t < 10 ^ 2" "day t < 10 ^ 2" "hour t < 10 ^ 2"
    "minute t < 10 ^ 2" "second t < 10 ^ 2" "microsecond t < 10 ^ 6"
    using valid_datetime_bounds[OF assms] by simp_all
  let ?s = "isoformat t"
  have f: "undigits (take 4 ?s) = year t" "undigits (take 2 (drop 5 ?s)) = month t"
    "undigits (take 2 (drop 8 ?s)) = day t" "undigits (take 2 (drop 11 ?s)) = hour t"
    "undigits (take 2 (drop 14 ?s)) = minute t" "undigits (take 2 (drop 17 ?s)) = second t"
    using b by (simp_all add: isoformat_digits[OF assms] undigits_digits)
  have l: "length ?s = 32 \<longleftrightarrow> microsecond t \<noteq> 0"
    by (simp add: isoformat_digits[OF assms])
  have u: "microsecond t \<noteq> 0 \<Longrightarrow> undigits (take 6 (drop 20 ?s)) = microsecond t"
    using b by (simp add: isoformat_digits[OF assms] undigits_digits)
  have "\<lparr>year = undigits (take 4 ?s), month = undigits (take 2 (drop 5 ?s)),
         day = undigits (take 2 (drop 8 ?s)), hour = undigits (take 2 (drop 11 ?s)),
         minute = undigits (take 2 (drop 14 ?s)), second = undigits (take 2 (drop 17 ?s)),
         microsecond = (if length ?s = 32 then undigits (take 6 (drop 20 ?s)) else 0)\<rparr> = t"
    using f l u by (cases "microsecond t = 0") simp_all
  with assms show ?thesis
    by (simp add: parse_iso_def Let_def)
qed

lemma inverts_isoformat_demo: "inverts_isoformat demo_env"
  by (simp add: inverts_isoformat_def demo_env_def parse_iso_isoformat)

lemma parse_iso_rejects_february_31: "parse_iso ''2023-02-31T00:00:00+00:00'' = Inl ValueError"
  by (simp add: parse_iso_def undigits_def valid_datetime_def days_in_month_def leap_year_def Let_def)

lemma load_all_length: "load_all env ds = Inr ss \<Longrightarrow> length ss = length ds"
  by (induction ds arbitrary: ss) (auto split: sum.splits)

lemma stats_doc_load_stat:
  assumes "inverts_isoformat env" "valid_datetime t" "timestamp d = isoformat t"
  shows "\<exists>s. load_stat env d = Inr s \<and> stats_doc s = d \<and> timestamp s = t"
  using assms by (simp add: load_stat_def inverts_isoformat_def stats_doc_def)

lemma load_all_written:
  assumes "inverts_isoformat env" "\<forall>d\<in>set ds. written_by_service d"
  shows "\<exists>ss. load_all env ds = Inr ss \<and> map stats_doc ss = ds \<and>
              (\<forall>s\<in>set ss. valid_datetime (timestamp s))"
  using assms(2)
proof (induction ds)
  case Nil
  then show ?case by simp
next
  case (Cons d ds)
  then obtain t where t: "valid_datetime t" "timestamp d = isoformat t"
    by (auto simp: written_by_service_def)
  from stats_doc_load_stat[OF assms(1) t] obtain s where
    s: "load_stat env d = Inr s" "stats_doc s = d" "timestamp s = t" by blast
  from Cons obtain ss where "load_all env ds = Inr ss" "map stats_doc ss = ds"
    "\<forall>s\<in>set ss. valid_datetime (timestamp s)" by auto
  with s t show ?case by simp
qed

lemma newest_first:
  assumes "sorted_wrt (\<lambda>a b. isoformat (timestamp b) \<le> isoformat (timestamp a)) ss"
    and "\<forall>s\<in>set ss. valid_datetime (timestamp s)"
  shows "sorted_wrt (\<lambda>a b. \<not> earlier (timestamp a) (timestamp b)) (ss :: 'f stats list)"
proof (rule sorted_wrt_mono_rel[OF _ assms(1)])
  fix a b :: "'f stats"
  assume "a \<in> set ss" "b \<in> set ss" "isoformat (timestamp b) \<le> isoformat (timestamp a)"
  with assms(2) show "\<not> earlier (timestamp a) (timestamp b)"
    using isoformat_less[of "timestamp a" "timestamp b"] by auto
qed

lemma find_sorted_descending:
  "sorted_wrt (\<lambda>a b. timestamp b \<le> timestamp a) (find_sorted db)"
proof -
  have "sorted (map timestamp (sort_key timestamp db))"
    by (rule sorted_sort_key)
  then have "sorted_wrt (\<lambda>a b. timestamp a \<le> timestamp b) (sort_key timestamp db)"
    by (simp add: sorted_wrt_map)
  then show ?thesis
    by (simp add: find_sorted_def sorted_wrt_rev)
qed

lemma set_find_sorted [simp]: "set (find_sorted db) = set db"
  by (simp add: find_sorted_def)

lemma mset_find_sorted [simp]: "mset (find_sorted db) = mset db"
  by (simp add: find_sorted_def)

lemma length_find_sorted [simp]: "length (find_sorted db) = length db"
  by (simp add: find_sorted_def)

lemma find_sorted_split:
  "\<forall>d\<in>set (take n (find_sorted db)). \<forall>d'\<in>set (drop n (find_sorted db)).
     timestamp d' \<le> timestamp d"
proof -
  have "sorted_wrt (\<lambda>a b. timestamp b \<le> timestamp a) (take n (find_sorted db) @ drop n (find_sorted db))"
    using find_sorted_descending[of db] by simp
  then show ?thesis
    unfolding sorted_wrt_append by blast
qed

lemma insort_key_snoc:
  "f x \<le> f y \<Longrightarrow> insort_key f x (zs @ [y]) = insort_key f x zs @ [y]"
  by (induction zs) auto

lemma foldr_insort_snoc:
  "\<forall>x\<in>set xs. f x \<le> f y \<Longrightarrow>
   foldr (insort_key f) xs (zs @ [y]) = foldr (insort_key f) xs zs @ [y]"
  by (induction xs) (auto simp: insort_key_snoc)

lemma sort_key_snoc_max:
  "\<forall>x\<in>set xs. f x \<le> f y \<Longrightarrow> sort_key f (xs @ [y]) = sort_key f xs @ [y]"
  using foldr_insort_snoc[of xs f y "[]"] by (simp add: sort_key_def)

lemma find_sorted_snoc_newest:
  "\<forall>d\<in>set db. timestamp d \<le> timestamp n \<Longrightarrow> find_sorted (db @ [n]) = n # find_sorted db"
  by (simp add: find_sorted_def sort_key_snoc_max)

lemma isoformat_le:
  "valid_datetime s \<Longrightarrow> valid_datetime t \<Longrightarrow> isoformat s \<le> isoformat t \<longleftrightarrow> \<not> earlier t s"
  using isoformat_less[of t s] by auto

lemma valid_examples:
  "valid_datetime demo_now" "valid_datetime (timestamp gif_stats)"
  "valid_datetime (timestamp older_stats)" "valid_datetime (timestamp oldest_stats)"
  by (simp_all add: valid_datetime_def days_in_month_def leap_year_def demo_now_def gif_stats_def
      older_stats_def oldest_stats_def)

lemma earlier_examples:
  "earlier (timestamp older_stats) (timestamp gif_stats)"
  "earlier (timestamp oldest_stats) (timestamp older_stats)"
  "earlier (timestamp oldest_stats) (timestamp gif_stats)"
  "\<not> earlier (timestamp gif_stats) (timestamp older_stats)"
  "\<not> earlier (timestamp older_stats) (timestamp oldest_stats)"
  "\<not> earlier (timestamp gif_stats) (timestamp oldest_stats)"
  "earlier (timestamp older_stats) demo_now"
  by (simp_all add: earlier_def dt_key_def demo_now_def gif_stats_def older_stats_def
      oldest_stats_def)

lemma timestamp_stats_doc [simp]: "timestamp (stats_doc s) = isoformat (timestamp s)"
  by (simp add: stats_doc_def)

lemma load_stat_demo:
  "valid_datetime (timestamp s) \<Longrightarrow> load_stat demo_env (stats_doc s) = Inr s"
  by (simp add: load_stat_def demo_env_def parse_iso_isoformat stats_doc_def)

lemma written_stats_doc: "valid_datetime (timestamp s) \<Longrightarrow> written_by_service (stats_doc s)"
  by (auto simp: written_by_service_def)

lemma sort_key_replicate: "sort_key f (replicate n x) = replicate n x"
proof (induction n)
  case 0
  then show ?case by simp
next
  case (Suc n)
  have "insort_key f x (replicate n x) = replicate (Suc n) x"
    by (cases n) simp_all
  with Suc show ?case by simp
qed

lemma load_all_replicate:
  "load_stat env d = Inr s \<Longrightarrow> load_all env (replicate n d) = Inr (replicate n s)"
  by (induction n) simp_all

section \<open>The claims about \<open>compress_image\<close>\<close>

text \<open>
  Claim C1.  When a compress request succeeds on an upload of more than zero bytes, the
  ratio in the inserted record and the ratio in the \<open>X-Compression-Ratio\<close> header are
  both \<open>round((1 - compressed_size / original_size) * 100, 2)\<close>.  When
  \<open>original_size\<close> is 0 the ratio is the int 0 and the division does not run.
\<close>

theorem ratio_recorded_and_reported:
  assumes "compress_image env file db = (Inr r, db')"
    and "read file = Inr contents"
    and "0 < length contents"
  shows "(\<exists>d. db' = db @ [d] \<and>
            compression_ratio d = ratio_formula env (int (length (body r))) (int (length contents))) \<and>
         map_of (raw_headers r) ''X-Compression-Ratio'' =
           Some (float_str env (ratio_formula env (int (length (body r))) (int (length contents)))) \<and>
         (\<forall>c. calc_ratio env c 0 = Inr (PyInt 0))"
proof -
  from assms(1) have t: "try_body env file db = (Inr r, db')"
    by (simp add: compress_image_Inr)
  from t assms(2,3) show ?thesis
    by (elim try_body_Inr) (simp add: stats_doc_def as_float_def str_number_def calc_ratio_eq)
qed

theorem ratio_recorded_and_reported_witness:
  "compress_image demo_env gif_upload [] = (Inr gif_response, [stats_doc gif_stats]) \<and>
   read gif_upload = Inr ''GIF89a-data-data'' \<and>
   compression_ratio (stats_doc gif_stats) = ratio_formula demo_env 8 16 \<and>
   ratio_formula demo_env 8 16 = 50 \<and>
   map_of (raw_headers gif_response) ''X-Compression-Ratio'' = Some ''50.0'' \<and>
   calc_ratio demo_env 8 0 = Inr (PyInt 0)"
proof -
  have h: "compress_image demo_env gif_upload [] = (Inr gif_response, [stats_doc gif_stats])"
    using compress_gif[of "[]"] by simp
  have r: "read gif_upload = Inr ''GIF89a-data-data''"
    by (simp add: gif_upload_def)
  have v: "ratio_formula demo_env 8 16 = 50"
    by (simp add: ratio_formula_def demo_env_def demo_round_def round_half_even_def)
  from ratio_recorded_and_reported[OF h r] h r v show ?thesis
    by (simp add: gif_response_def)
qed

text \<open>
  Claim C2, as amended.  When reading, decoding, normalizing, transcoding or the stats
  write raises \<open>e\<close>, the handler answers 400 with the detail
  \<open>Error processing image: str(e)\<close> and the collection is what it was before the
  request.
\<close>

theorem failing_step_gives_400_and_no_record:
  assumes "step_raises env file db e"
  shows "compress_image env file db =
           (Inl (HTTPException 400 (''Error processing image: '' @ str_exn env e)), db)"
  using try_body_step_raises[OF assms] by (simp add: compress_image_def)

theorem failing_step_witness:
  "step_raises demo_env text_upload [] (LibraryError ''UnidentifiedImageError'') \<and>
   compress_image demo_env text_upload [] =
     (Inl (HTTPException 400 ''Error processing image: UnidentifiedImageError''), [])"
proof -
  have h: "step_raises demo_env text_upload [] (LibraryError ''UnidentifiedImageError'')"
    by (rule step_raises.decoding[where contents = "''hello''"])
       (simp_all add: text_upload_def demo_env_def demo_open_def)
  from failing_step_gives_400_and_no_record[OF h] h show ?thesis
    by (simp add: demo_env_def demo_str_exn_def)
qed

text \<open>
  Claim C2 as worded, with the collection unchanged on every failed request, fails after
  the insert.  The file name \<open>U+7167 U+7247 .gif\<close> has no \<open>latin-1\<close> encoding, so the
  response constructor raises while it encodes \<open>Content-Disposition\<close>; the handler
  answers 400 and the record of line 103 stays in the collection.
\<close>

theorem record_written_on_failed_request:
  "compress_image demo_env unicode_upload [] =
     (Inl (HTTPException 400 ''Error processing image: latin-1 codec cannot encode character''),
      [stats_doc (gif_stats\<lparr>original_filename := [29031, 29255, 46, 103, 105, 102]\<rparr>)]) \<and>
   [stats_doc (gif_stats\<lparr>original_filename := [29031, 29255, 46, 103, 105, 102]\<rparr>)] \<noteq> ([] :: rat document list)"
  by (simp add: compress_image_def try_body_def unicode_upload_def demo_env_def demo_open_def
      normalize_image_def pil_def paste_mask_def split_def getbands_def demo_save_def
      calc_ratio_eq new_stats_def as_float_def ratio_formula_def demo_round_def round_half_even_def
      insert_one_def StreamingResponse_def encode_response_headers demo_stem_def
      format_or_unknown_def demo_str_exn_def gif_stats_def stats_doc_def
      eval_simps Let_def)

text \<open>
  Claim C4.  When the uploaded bytes do not decode (the decoder raises \<open>e\<close>; the empty
  upload is the case \<open>contents = []\<close>), the handler answers 400, the JSON body is
  \<open>{"detail": "Error processing image: str(e)"}\<close>, and nothing is written.
\<close>

theorem undecodable_upload_is_rejected:
  assumes "read file = Inr contents"
    and "image_open env contents = Inl e"
  shows "compress_image env file db =
           (Inl (HTTPException 400 (''Error processing image: '' @ str_exn env e)), db) \<and>
         http_exception_handler (HTTPException 400 (''Error processing image: '' @ str_exn env e)) =
           (400, [(''detail'', ''Error processing image: '' @ str_exn env e)])"
  using assms by (simp add: compress_image_def try_body_def http_exception_handler_def)

theorem undecodable_upload_is_rejected_witness:
  "read empty_upload = Inr [] \<and>
   image_open demo_env [] = Inl (LibraryError ''UnidentifiedImageError'') \<and>
   compress_image demo_env empty_upload [] =
     (Inl (HTTPException 400 ''Error processing image: UnidentifiedImageError''), []) \<and>
   http_exception_handler (HTTPException 400 ''Error processing image: UnidentifiedImageError'') =
     (400, [(''detail'', ''Error processing image: UnidentifiedImageError'')])"
proof -
  have r: "read empty_upload = Inr []"
    by (simp add: empty_upload_def)
  have d: "image_open demo_env [] = Inl (LibraryError ''UnidentifiedImageError'')"
    by (simp add: demo_env_def demo_open_def)
  from undecodable_upload_is_rejected[OF r d, of "[]"] r d show ?thesis
    by (simp add: demo_env_def demo_str_exn_def)
qed

text \<open>
  Claim C8.  A successful compress request answers with the encoded bytes as body; the
  \<open>Content-Disposition\<close> header names the attachment \<open>stem.webp\<close>, where \<open>stem\<close>
  is the stem of the uploaded file name; \<open>X-Original-Size\<close>, \<open>X-Compressed-Size\<close>,
  \<open>X-Compression-Ratio\<close> and \<open>X-Original-Format\<close> hold the uploaded byte count, the
  encoded byte count, the ratio and the format label, which is \<open>UNKNOWN\<close> when the
  decoder gives none.
\<close>

theorem success_response_contents:
  assumes "compress_image env file db = (Inr r, db')"
  shows "\<exists>contents m sz f img name ratio.
           read file = Inr contents \<and> image_open env contents = Inr (m, sz, f) \<and>
           normalize_image env (Opened contents m sz f) = Inr img \<and>
           image_save env img ''WEBP'' 95 6 = Inr (body r) \<and>
           filename file = Some name \<and>
           calc_ratio env (int (length (body r))) (int (length contents)) = Inr ratio \<and>
           status r = 200 \<and>
           map_of (raw_headers r) ''Content-Disposition'' =
             Some (''attachment; filename=\"'' @ map char_of (path_stem env name) @ ''.webp\"'') \<and>
           map_of (raw_headers r) ''X-Original-Size'' = Some (str_int (int (length contents))) \<and>
           map_of (raw_headers r) ''X-Compressed-Size'' = Some (str_int (int (length (body r)))) \<and>
           map_of (raw_headers r) ''X-Compression-Ratio'' = Some (str_number env ratio) \<and>
           map_of (raw_headers r) ''X-Original-Format'' =
             Some (case f of None \<Rightarrow> ''UNKNOWN'' | Some l \<Rightarrow> if l = [] then ''UNKNOWN'' else l)"
proof -
  from assms have t: "try_body env file db = (Inr r, db')"
    by (simp add: compress_image_Inr)
  then show ?thesis
  proof (rule try_body_Inr)
    fix contents m sz f img name
    assume "read file = Inr contents" "image_open env contents = Inr (m, sz, f)"
      "normalize_image env (Opened contents m sz f) = Inr img"
      "image_save env img ''WEBP'' 95 6 = Inr (body r)" "filename file = Some name"
      "status r = 200"
      "raw_headers r =
       [(''Content-Disposition'', ''attachment; filename=\"'' @ map char_of (path_stem env name) @ ''.webp\"''),
        (''X-Original-Size'', str_int (int (length contents))),
        (''X-Compressed-Size'', str_int (int (length (body r)))),
        (''X-Compression-Ratio'', str_number env (if 0 < length contents
            then PyFloat (ratio_formula env (int (length (body r))) (int (length contents)))
            else PyInt 0)),
        (''X-Original-Format'', format_or_unknown f)]"
    then show ?thesis
      by (rule_tac x = contents in exI, rule_tac x = m in exI, rule_tac x = sz in exI,
          rule_tac x = f in exI, rule_tac x = img in exI, rule_tac x = name in exI)
         (simp add: calc_ratio_eq format_or_unknown_def)
  qed
qed

theorem success_response_contents_witness:
  "compress_image demo_env gif_upload [] = (Inr gif_response, [stats_doc gif_stats]) \<and>
   body gif_response = ''RIFFWEBP'' \<and>
   map_of (raw_headers gif_response) ''Content-Disposition'' =
     Some ''attachment; filename=\"photo.v2.webp\"'' \<and>
   map_of (raw_headers gif_response) ''X-Original-Size'' = Some ''16'' \<and>
   map_of (raw_headers gif_response) ''X-Compressed-Size'' = Some ''8'' \<and>
   map_of (raw_headers gif_response) ''X-Compression-Ratio'' = Some ''50.0'' \<and>
   map_of (raw_headers gif_response) ''X-Original-Format'' = Some ''GIF''"
proof -
  have h: "compress_image demo_env gif_upload [] = (Inr gif_response, [stats_doc gif_stats])"
    using compress_gif[of "[]"] by simp
  from success_response_contents[OF h] h show ?thesis
    by (simp add: gif_response_def)
qed







section \<open>The claim about the normalizer\<close>

text \<open>
  Claim C3, as amended.  The normalizer composites exactly the modes \<open>RGBA\<close>, \<open>LA\<close>
  and \<open>P\<close> onto a white canvas of the same size, with the alpha band as mask and
  \<open>P\<close> first converted to \<open>RGBA\<close>; every other mode but \<open>RGB\<close> is converted to
  \<open>RGB\<close> without compositing; \<open>RGB\<close> passes unchanged; the result has mode \<open>RGB\<close>
  and the size of the input.
\<close>

theorem normalizer_branches:
  assumes "normalize_image env img = Inr res"
  shows "(im_mode img \<in> set [''RGBA'', ''LA''] \<longrightarrow>
            res = Paste (white (im_size img)) img (Some (Band img ''A''))) \<and>
         (im_mode img = ''P'' \<longrightarrow>
            res = Paste (white (im_size img)) (Convert img ''RGBA'')
                    (Some (Band (Convert img ''RGBA'') ''A''))) \<and>
         (im_mode img \<in> set [''RGBA'', ''LA'', ''P''] \<longrightarrow> composited_on_white img res) \<and>
         (im_mode img \<notin> set [''RGBA'', ''LA'', ''P'', ''RGB''] \<longrightarrow> res = Convert img ''RGB'') \<and>
         (im_mode img = ''RGB'' \<longrightarrow> res = img) \<and>
         im_mode res = ''RGB'' \<and> im_size res = im_size img"
  using assms
  by (auto simp: normalize_image_def pil_def paste_mask_def white_def split_def getbands_def
      split: if_splits option.splits sum.splits)

theorem normalizer_branches_witness:
  "normalize_image demo_env webp_rgba =
     Inr (Paste (white (2, 3)) webp_rgba (Some (Band webp_rgba ''A''))) \<and>
   normalize_image demo_env gif_p =
     Inr (Paste (white (2, 3)) (Convert gif_p ''RGBA'') (Some (Band (Convert gif_p ''RGBA'') ''A''))) \<and>
   normalize_image demo_env pgm_l = Inr (Convert pgm_l ''RGB'') \<and>
   normalize_image demo_env bmp_rgb = Inr bmp_rgb \<and>
   im_mode webp_rgba = ''RGBA'' \<and> im_mode gif_p = ''P'' \<and> im_mode pgm_l = ''L'' \<and>
   im_mode bmp_rgb = ''RGB''"
proof -
  obtain r1 where r1: "normalize_image demo_env webp_rgba = Inr r1"
    using normalize_image_total[of demo_env webp_rgba] by (auto simp: demo_env_def)
  obtain r2 where r2: "normalize_image demo_env gif_p = Inr r2"
    using normalize_image_total[of demo_env gif_p] by (auto simp: demo_env_def)
  obtain r3 where r3: "normalize_image demo_env pgm_l = Inr r3"
    using normalize_image_total[of demo_env pgm_l] by (auto simp: demo_env_def)
  obtain r4 where r4: "normalize_image demo_env bmp_rgb = Inr r4"
    using normalize_image_total[of demo_env bmp_rgb] by (auto simp: demo_env_def)
  have m: "im_mode webp_rgba = ''RGBA''" "im_mode gif_p = ''P''" "im_mode pgm_l = ''L''"
    "im_mode bmp_rgb = ''RGB''" "im_size webp_rgba = (2, 3)" "im_size gif_p = (2, 3)"
    by (simp_all add: webp_rgba_def gif_p_def pgm_l_def bmp_rgb_def)
  from normalizer_branches[OF r1] normalizer_branches[OF r2] normalizer_branches[OF r3]
    normalizer_branches[OF r4] r1 r2 r3 r4 m
  show ?thesis by simp
qed

text \<open>
  Claim C3 as the spec words it fails: \<open>PA\<close> carries an alpha channel and is
  palette-indexed, and an image of that mode is converted, not composited.
\<close>

theorem alpha_palette_mode_not_composited:
  "image_open demo_env ''II*-palette-alpha'' = Inr (''PA'', (2, 3), Some ''TIFF'') \<and>
   carries_alpha (im_mode tiff_pa) \<and> palette_indexed (im_mode tiff_pa) \<and>
   normalize_image demo_env tiff_pa = Inr (Convert tiff_pa ''RGB'') \<and>
   \<not> composited_on_white tiff_pa (Convert tiff_pa ''RGB'')"
  by (simp add: tiff_pa_def demo_env_def demo_open_def carries_alpha_def palette_indexed_def
      normalize_image_def pil_def)

section \<open>The claims about \<open>get_compression_stats\<close>\<close>

text \<open>
  Claim C5.  On a collection written by the service, the list operation returns stored
  records with the newest creation time first: no returned record is earlier than one
  that follows it or than a stored record that was left out, and none is left out when
  the collection holds at most 100.
\<close>

theorem list_is_newest_first:
  assumes "find_raises env = None"
    and "inverts_isoformat env"
    and "\<forall>d\<in>set db. written_by_service d"
  shows "\<exists>rs rest. get_compression_stats env db = Inr rs \<and>
              length rs = min 100 (length db) \<and>
              mset (map stats_doc rs) + mset rest = mset db \<and>
              sorted_wrt (\<lambda>a b. \<not> earlier (timestamp a) (timestamp b)) rs \<and>
              (\<forall>r\<in>set rs. \<forall>d\<in>set rest. \<forall>t. valid_datetime t \<longrightarrow> timestamp d = isoformat t \<longrightarrow>
                 \<not> earlier (timestamp r) t)"
proof -
  let ?ds = "to_list 100 (find_sorted db)"
  let ?rest = "drop 100 (find_sorted db)"
  have sub: "set ?ds \<subseteq> set db"
    using set_take_subset[of 100 "find_sorted db"] by (simp add: to_list_def)
  with assms(3) have "\<forall>d\<in>set ?ds. written_by_service d" by blast
  from load_all_written[OF assms(2) this] obtain rs where
    rs: "load_all env ?ds = Inr rs" "map stats_doc rs = ?ds"
        "\<forall>s\<in>set rs. valid_datetime (timestamp s)" by blast
  have "sorted_wrt (\<lambda>a b. timestamp b \<le> timestamp a) ?ds"
    unfolding to_list_def by (rule sorted_wrt_take[OF find_sorted_descending])
  with rs(2) have "sorted_wrt (\<lambda>a b. timestamp b \<le> timestamp a) (map stats_doc rs)"
    by simp
  then have "sorted_wrt (\<lambda>a b. isoformat (timestamp b) \<le> isoformat (timestamp a)) rs"
    by (simp add: sorted_wrt_map stats_doc_def)
  from newest_first[OF this rs(3)]
  have srt: "sorted_wrt (\<lambda>a b. \<not> earlier (timestamp a) (timestamp b)) rs" .
  have len: "length rs = min 100 (length db)"
    using load_all_length[OF rs(1)] by (simp add: to_list_def min_def)
  have "mset ?ds + mset ?rest = mset (find_sorted db)"
    unfolding to_list_def by (metis append_take_drop_id mset_append)
  then have ms: "mset (map stats_doc rs) + mset ?rest = mset db"
    unfolding rs(2) by simp
  have top: "\<forall>r\<in>set rs. \<forall>d\<in>set ?rest. \<forall>t. valid_datetime t \<longrightarrow> timestamp d = isoformat t \<longrightarrow>
                 \<not> earlier (timestamp r) t"
  proof (intro ballI allI impI)
    fix r d t
    assume r: "r \<in> set rs" and d: "d \<in> set ?rest"
      and t: "valid_datetime t" "timestamp d = isoformat t"
    from r have "stats_doc r \<in> set (map stats_doc rs)" by simp
    then have "stats_doc r \<in> set (take 100 (find_sorted db))"
      unfolding rs(2) to_list_def .
    with d find_sorted_split[of 100 db] have "timestamp d \<le> timestamp (stats_doc r)"
      by blast
    then have "isoformat t \<le> isoformat (timestamp r)"
      using t(2) by (simp add: stats_doc_def)
    moreover from r rs(3) have "valid_datetime (timestamp r)" by blast
    ultimately show "\<not> earlier (timestamp r) t"
      using isoformat_less[OF \<open>valid_datetime (timestamp r)\<close> t(1)] by auto
  qed
  have g: "get_compression_stats env db = Inr rs"
    using rs(1) assms(1) by (simp add: get_compression_stats_def)
  from g len ms srt top show ?thesis by blast
qed

theorem list_is_newest_first_witness:
  "get_compression_stats demo_env [stats_doc older_stats, stats_doc gif_stats, stats_doc oldest_stats]
     = Inr [gif_stats, older_stats, oldest_stats] \<and>
   sorted_wrt (\<lambda>a b. \<not> earlier (timestamp a) (timestamp b)) [gif_stats, older_stats, oldest_stats] \<and>
   earlier (timestamp oldest_stats) (timestamp older_stats) \<and>
   earlier (timestamp older_stats) (timestamp gif_stats)"
proof -
  let ?db = "[stats_doc older_stats, stats_doc gif_stats, stats_doc oldest_stats]"
  have f: "find_raises demo_env = None"
    by (simp add: demo_env_def)
  have w: "\<forall>d\<in>set ?db. written_by_service d"
    by (simp add: written_stats_doc valid_examples)
  have g: "get_compression_stats demo_env ?db = Inr [gif_stats, older_stats, oldest_stats]"
    by (simp add: get_compression_stats_def f find_sorted_def to_list_def isoformat_le
        valid_examples earlier_examples load_stat_demo)
  from list_is_newest_first[OF f inverts_isoformat_demo w] obtain rs where
    "get_compression_stats demo_env ?db = Inr rs"
    "sorted_wrt (\<lambda>a b. \<not> earlier (timestamp a) (timestamp b)) rs" by blast
  with g have "sorted_wrt (\<lambda>a b. \<not> earlier (timestamp a) (timestamp b))
                 [gif_stats, older_stats, oldest_stats]" by simp
  with g earlier_examples show ?thesis by blast
qed

text \<open>
  Claim C6.  Whatever the collection holds, the list operation returns at most 100
  records.
\<close>

theorem list_returns_at_most_100:
  assumes "get_compression_stats env db = Inr rs"
  shows "length rs \<le> 100"
proof -
  from assms have "load_all env (to_list 100 (find_sorted db)) = Inr rs"
    by (simp add: get_compression_stats_def split: option.splits)
  from load_all_length[OF this] show ?thesis
    by (simp add: to_list_def)
qed

theorem list_returns_at_most_100_witness:
  "length (replicate 101 (stats_doc gif_stats)) = 101 \<and>
   get_compression_stats demo_env (replicate 101 (stats_doc gif_stats)) = Inr (replicate 100 gif_stats) \<and>
   length (replicate 100 gif_stats) \<le> 100"
proof -
  have l: "load_stat demo_env (stats_doc gif_stats) = Inr gif_stats"
    by (simp add: load_stat_demo valid_examples)
  have g: "get_compression_stats demo_env (replicate 101 (stats_doc gif_stats)) =
             Inr (replicate 100 gif_stats)"
    by (simp add: get_compression_stats_def demo_env_def find_sorted_def sort_key_replicate
        to_list_def load_all_replicate[OF l, unfolded demo_env_def])
  from list_returns_at_most_100[OF g] g show ?thesis by simp
qed

text \<open>
  Claim C7.  After a successful compress request whose timestamp is later than every
  stored one, the list operation returns the record of that request first, with the
  field values that were written.
\<close>

theorem recorded_stats_listed_first:
  assumes "compress_image env file db = (Inr r, db')"
    and "find_raises env = None"
    and "inverts_isoformat env"
    and "valid_datetime (now_utc env)"
    and "\<forall>d\<in>set db. written_before (now_utc env) d"
  shows "\<exists>s rest contents.
           db' = db @ [stats_doc s] \<and>
           get_compression_stats env db' = Inr (s # rest) \<and>
           timestamp s = now_utc env \<and> stats_id s = uuid4 env \<and>
           filename file = Some (original_filename s) \<and>
           read file = Inr contents \<and> original_size s = int (length contents) \<and>
           compressed_size s = int (length (body r))"
proof -
  from assms(1) have t: "try_body env file db = (Inr r, db')"
    by (simp add: compress_image_Inr)
  then show ?thesis
  proof (rule try_body_Inr)
    fix contents :: bytes and m :: mode and sz :: size and f :: "string option"
      and img :: image and name :: unicode
    let ?s = "\<lparr>stats_id = uuid4 env, original_filename = name,
        original_size = int (length contents), compressed_size = int (length (body r)),
        original_format = format_or_unknown f,
        compression_ratio = as_float env (if 0 < length contents
            then PyFloat (ratio_formula env (int (length (body r))) (int (length contents)))
            else PyInt 0),
        timestamp = now_utc env\<rparr>"
    assume c: "read file = Inr contents" "filename file = Some name"
      and d: "db' = db @ [stats_doc ?s]"
    have older: "\<forall>d\<in>set db. timestamp d \<le> timestamp (stats_doc ?s)"
    proof
      fix d assume "d \<in> set db"
      with assms(5) obtain u where "valid_datetime u" "timestamp d = isoformat u"
        "earlier u (now_utc env)" by (auto simp: written_before_def)
      with assms(4) show "timestamp d \<le> timestamp (stats_doc ?s)"
        using isoformat_less[of u "now_utc env"] by (simp add: stats_doc_def)
    qed
    have fs: "find_sorted db' = stats_doc ?s # find_sorted db"
      unfolding d by (rule find_sorted_snoc_newest[OF older])
    have "\<forall>d\<in>set (take 99 (find_sorted db)). written_by_service d"
      using assms(5) set_take_subset[of 99 "find_sorted db"]
      by (auto simp: written_before_def written_by_service_def)
    from load_all_written[OF assms(3) this] obtain rest where
      rest: "load_all env (take 99 (find_sorted db)) = Inr rest" by blast
    have ls: "load_stat env (stats_doc ?s) = Inr ?s"
      using assms(3,4) by (simp add: load_stat_def inverts_isoformat_def stats_doc_def)
    have "get_compression_stats env db' = Inr (?s # rest)"
      using assms(2) rest ls by (simp add: get_compression_stats_def fs to_list_def)
    with c d show ?thesis
      by (rule_tac x = "?s" in exI, rule_tac x = rest in exI, rule_tac x = contents in exI) simp
  qed
qed

theorem recorded_stats_listed_first_witness:
  "compress_image demo_env gif_upload [stats_doc older_stats] =
     (Inr gif_response, [stats_doc older_stats, stats_doc gif_stats]) \<and>
   timestamp gif_stats = now_utc demo_env \<and>
   earlier (timestamp older_stats) (now_utc demo_env) \<and>
   get_compression_stats demo_env [stats_doc older_stats, stats_doc gif_stats] =
     Inr [gif_stats, older_stats]"
proof -
  have h: "compress_image demo_env gif_upload [stats_doc older_stats] =
     (Inr gif_response, [stats_doc older_stats, stats_doc gif_stats])"
    using compress_gif[of "[stats_doc older_stats]"] by simp
  have f: "find_raises demo_env = None" and n: "now_utc demo_env = demo_now"
    by (simp_all add: demo_env_def)
  have v: "valid_datetime (now_utc demo_env)"
    by (simp add: n valid_examples)
  have b: "\<forall>d\<in>set [stats_doc older_stats]. written_before (now_utc demo_env) d"
    using valid_examples(3) earlier_examples(7) by (auto simp: written_before_def n)
  have g: "get_compression_stats demo_env [stats_doc older_stats, stats_doc gif_stats] =
     Inr [gif_stats, older_stats]"
    by (simp add: get_compression_stats_def f find_sorted_def to_list_def isoformat_le
        valid_examples earlier_examples load_stat_demo)
  from recorded_stats_listed_first[OF h f inverts_isoformat_demo v b] h g n earlier_examples(7)
  show ?thesis by (simp add: gif_stats_def)
qed

end
